theory Spec2Isabelle
  imports Main
begin

section \<open>Strings of the source language\<close>

text \<open>
  A Python \<open>str\<close> is a sequence of Unicode code points, so a character is a natural
  number and a string a list of them.  \<open>ustr\<close> reads an ASCII literal.
\<close>

type_synonym uchar = nat
type_synonym ustring = "nat list"

definition ustr :: "string \<Rightarrow> ustring" where
  "ustr s = map of_char s"

text \<open>
  The whitespace of \<open>str.strip\<close>, \<open>str.split\<close> and of \<open>\s\<close> in a \<open>str\<close> pattern:
  U+0009..U+000D, U+001C..U+0020, U+0085, U+00A0, U+1680, U+2000..U+200A, U+2028, U+2029,
  U+202F, U+205F and U+3000.
\<close>

definition is_space :: "uchar \<Rightarrow> bool" where
  "is_space c \<longleftrightarrow>
     (9 \<le> c \<and> c \<le> 13) \<or> (28 \<le> c \<and> c \<le> 32) \<or> c = 133 \<or> c = 160 \<or> c = 5760 \<or>
     (8192 \<le> c \<and> c \<le> 8202) \<or> c = 8232 \<or> c = 8233 \<or> c = 8239 \<or> c = 8287 \<or> c = 12288"

text \<open>The character class \<open>[A-Za-z]\<close>.\<close>

definition is_letter :: "uchar \<Rightarrow> bool" where
  "is_letter c \<longleftrightarrow> (65 \<le> c \<and> c \<le> 90) \<or> (97 \<le> c \<and> c \<le> 122)"

text \<open>\<open>s.strip()\<close>: leading and trailing whitespace removed.\<close>

definition strip :: "ustring \<Rightarrow> ustring" where
  "strip s = rev (dropWhile is_space (rev (dropWhile is_space s)))"

text \<open>
  \<open>s.split()\<close>: the maximal runs of non-whitespace characters, in order.  \<open>cur\<close> holds
  the run being read, reversed.
\<close>

fun split_run :: "ustring \<Rightarrow> ustring \<Rightarrow> ustring list" where
  "split_run cur [] = (if cur = [] then [] else [rev cur])"
| "split_run cur (c # cs) =
     (if is_space c then (if cur = [] then split_run [] cs else rev cur # split_run [] cs)
      else split_run (c # cur) cs)"

definition split_ws :: "ustring \<Rightarrow> ustring list" where
  "split_ws s = split_run [] s"

text \<open>\<open>sep.join(xs)\<close>.\<close>

fun join :: "ustring \<Rightarrow> ustring list \<Rightarrow> ustring" where
  "join sep [] = []"
| "join sep [x] = x"
| "join sep (x # y # ys) = x @ sep @ join sep (y # ys)"

text \<open>\<open>s.replace(a, b)\<close> for single characters \<open>a\<close>; \<open>b\<close> is any string.\<close>

definition replace_char :: "uchar \<Rightarrow> ustring \<Rightarrow> ustring \<Rightarrow> ustring" where
  "replace_char a b s = concat (map (\<lambda>c. if c = a then b else [c]) s)"

section \<open>Regular expressions of the program\<close>

text \<open>
  A pattern is modelled by its matcher at the head of the input: the length of the match
  that \<open>re\<close> finds starting there (greedy, with backtracking), or \<open>None\<close>.  Every pattern of
  the program matches at least one character.
\<close>

type_synonym pattern = "ustring \<Rightarrow> nat option"

text \<open>
  \<open>re.sub(pat, repl, s)\<close>: scanning from the left, each match is replaced by \<open>repl\<close> of the
  matched text and scanning resumes behind the match; other characters are copied.
\<close>

fun re_sub :: "pattern \<Rightarrow> (ustring \<Rightarrow> ustring) \<Rightarrow> ustring \<Rightarrow> ustring" where
  "re_sub pat repl [] = []"
| "re_sub pat repl (c # cs) =
     (case pat (c # cs) of
        None \<Rightarrow> c # re_sub pat repl cs
      | Some n \<Rightarrow> repl (take n (c # cs)) @ re_sub pat repl (drop (n - 1) cs))"

text \<open>
  \<open>re.split(pat, s)\<close>: the pieces between the matches, in order; \<open>cur\<close> holds the piece being
  read, reversed.
\<close>

fun re_split_run :: "pattern \<Rightarrow> ustring \<Rightarrow> ustring \<Rightarrow> ustring list" where
  "re_split_run pat cur [] = [rev cur]"
| "re_split_run pat cur (c # cs) =
     (case pat (c # cs) of
        None \<Rightarrow> re_split_run pat (c # cur) cs
      | Some n \<Rightarrow> rev cur # re_split_run pat [] (drop (n - 1) cs))"

definition re_split :: "pattern \<Rightarrow> ustring \<Rightarrow> ustring list" where
  "re_split pat s = re_split_run pat [] s"

text \<open>\<open>\\'\\?([A-Za-z])\<close>: backslash, apostrophe, an optional backslash, a letter.\<close>

definition pat_acute :: pattern where
  "pat_acute s =
     (case s of
        b # q # c # r \<Rightarrow>
          if b = 92 \<and> q = 39 then
            (if c = 92 then (case r of d # _ \<Rightarrow> if is_letter d then Some 4 else None | [] \<Rightarrow> None)
             else if is_letter c then Some 3 else None)
          else None
      | _ \<Rightarrow> None)"

text \<open>\<open>\\`([A-Za-z])\<close>, \<open>\\~([nN])\<close> and \<open>\\"([A-Za-z])\<close>: backslash, the accent, one letter.\<close>

definition pat_macro :: "uchar \<Rightarrow> (uchar \<Rightarrow> bool) \<Rightarrow> pattern" where
  "pat_macro a cls s =
     (case s of b # q # c # _ \<Rightarrow> if b = 92 \<and> q = a \<and> cls c then Some 3 else None | _ \<Rightarrow> None)"

definition pat_grave :: pattern where
  "pat_grave = pat_macro 96 is_letter"

definition pat_tilde :: pattern where
  "pat_tilde = pat_macro 126 (\<lambda>c. c = 110 \<or> c = 78)"

definition pat_umlaut :: pattern where
  "pat_umlaut = pat_macro 34 is_letter"

text \<open>\<open>\s+\<close>: a maximal run of whitespace.\<close>

definition pat_spaces :: pattern where
  "pat_spaces s =
     (case s of [] \<Rightarrow> None
      | c # _ \<Rightarrow> if is_space c then Some (length (takeWhile is_space s)) else None)"

section \<open>The LaTeX unescaper\<close>

text \<open>The table \<open>accents\<close>, read with \<open>accents.get(x, x)\<close>.\<close>

definition accents :: "uchar \<Rightarrow> uchar" where
  "accents x =
     (if x = 97 then 225 else if x = 101 then 233 else if x = 105 then 237
      else if x = 111 then 243 else if x = 117 then 250 else if x = 65 then 193
      else if x = 69 then 201 else if x = 73 then 205 else if x = 79 then 211
      else if x = 85 then 218 else if x = 110 then 241 else if x = 78 then 209 else x)"

definition tilde_n :: "uchar \<Rightarrow> uchar" where
  "tilde_n x = (if x = 110 then 241 else 209)"

definition umlauts :: "uchar \<Rightarrow> uchar" where
  "umlauts x = (if x = 111 then 246 else if x = 79 then 214 else x)"

text \<open>Group 1 of each accent pattern is the last character of the match.\<close>

definition on_group :: "(uchar \<Rightarrow> uchar) \<Rightarrow> ustring \<Rightarrow> ustring" where
  "on_group f m = [f (last m)]"

definition unescape_latex :: "ustring \<Rightarrow> ustring" where
  "unescape_latex s =
     (if s = [] then s
      else
        let s1 = replace_char 10 [32] s;
            s2 = re_sub pat_acute (on_group accents) s1;
            s3 = re_sub pat_grave (on_group id) s2;
            s4 = re_sub pat_tilde (on_group tilde_n) s3;
            s5 = re_sub pat_umlaut (on_group umlauts) s4;
            s6 = replace_char 125 [] (replace_char 123 [] s5)
        in strip (re_sub pat_spaces (\<lambda>_. [32]) s6))"

section \<open>The author formatter\<close>

text \<open>
  What the program raises: \<open>IndexError\<close> from an index out of range, and whatever a
  collaborator (the BibTeX library, the file system, the input stream) raises, which is kept
  with its message.
\<close>

datatype error = IndexError | External ustring

fun str_of_error :: "error \<Rightarrow> ustring" where
  "str_of_error IndexError = ustr ''list index out of range''"
| "str_of_error (External msg) = msg"

text \<open>\<open>\s+and\s+\<close>: a whitespace run, the word, a whitespace run; both runs are maximal.\<close>

definition pat_and :: pattern where
  "pat_and s =
     (let n = length (takeWhile is_space s) in
      if n = 0 then None
      else
        (case drop n s of
           a # b # c # t \<Rightarrow>
             if a = 97 \<and> b = 110 \<and> c = 100 \<and> takeWhile is_space t \<noteq> []
             then Some (n + 3 + length (takeWhile is_space t)) else None
         | _ \<Rightarrow> None))"

text \<open>
  The initials: \<open>" X."\<close> is appended for every token of the first name, and the result is
  stripped.
\<close>

definition initials_of :: "ustring \<Rightarrow> ustring" where
  "initials_of first =
     strip (foldl (\<lambda>initials token. case token of [] \<Rightarrow> initials | c # _ \<Rightarrow> initials @ [32, c, 46])
              [] (split_ws first))"

text \<open>
  The body of the loop over the segments.  \<open>tokens[-1]\<close> is reached whenever the number of
  tokens is not 1, also when there is none, and raises then.
\<close>

definition split_name :: "ustring \<Rightarrow> error + ustring \<times> ustring" where
  "split_name p =
     (if 44 \<in> set p
      then Inr (strip (takeWhile (\<lambda>c. c \<noteq> 44) p), strip (tl (dropWhile (\<lambda>c. c \<noteq> 44) p)))
      else
        (case split_ws p of
           [t] \<Rightarrow> Inr (t, [])
         | [] \<Rightarrow> Inl IndexError
         | tokens \<Rightarrow> Inr (last tokens, join [32] (butlast tokens))))"

definition format_name :: "ustring \<Rightarrow> error + ustring" where
  "format_name seg =
     (case split_name (unescape_latex (strip seg)) of
        Inl e \<Rightarrow> Inl e
      | Inr (last_name, first) \<Rightarrow>
          let initials = initials_of first
          in Inr (if initials \<noteq> [] then last_name @ [44, 32] @ initials else last_name))"

fun format_names :: "ustring list \<Rightarrow> error + ustring list" where
  "format_names [] = Inr []"
| "format_names (p # ps) =
     (case format_name p of
        Inl e \<Rightarrow> Inl e
      | Inr name \<Rightarrow> (case format_names ps of Inl e \<Rightarrow> Inl e | Inr names \<Rightarrow> Inr (name # names)))"

text \<open>Lines 83 to 87, the joining of the formatted names.\<close>

definition join_names :: "ustring list \<Rightarrow> error + ustring" where
  "join_names names =
     (case names of
        [a] \<Rightarrow> Inr a
      | [a, b] \<Rightarrow> Inr (a @ ustr '', & '' @ b)
      | [] \<Rightarrow> Inl IndexError
      | _ \<Rightarrow> Inr (join (ustr '', '') (butlast names) @ ustr '', & '' @ last names))"

definition format_authors_apa :: "ustring \<Rightarrow> error + ustring" where
  "format_authors_apa authors_field =
     (if authors_field = [] then Inr []
      else
        (case format_names (re_split pat_and authors_field) of
           Inl e \<Rightarrow> Inl e
         | Inr names \<Rightarrow> join_names names))"

section \<open>The reference assembler\<close>

type_synonym fields = "ustring \<rightharpoonup> ustring"

text \<open>\<open>fields.get(key, '')\<close>.\<close>

definition get_field :: "fields \<Rightarrow> ustring \<Rightarrow> ustring" where
  "get_field fields key = (case fields key of None \<Rightarrow> [] | Some v \<Rightarrow> v)"

definition clean_field :: "fields \<Rightarrow> ustring \<Rightarrow> ustring" where
  "clean_field fields key = strip (unescape_latex (get_field fields key))"

text \<open>Lines 101 to 114.\<close>

definition journal_segment :: "ustring \<Rightarrow> ustring \<Rightarrow> ustring \<Rightarrow> ustring" where
  "journal_segment journal volume number =
     (let vol_part =
            (if volume \<noteq> [] then (if number \<noteq> [] then volume @ [40] @ number @ [41] else volume)
             else if number \<noteq> [] then [40] @ number @ [41]
             else [])
      in if vol_part \<noteq> [] then (if journal \<noteq> [] then journal @ [44, 32] @ vol_part else vol_part)
         else journal)"

text \<open>Lines 116 to 125: \<open>apa\<close> grows by one part at a time and is normalised at the end.\<close>

definition assemble :: "ustring \<Rightarrow> ustring \<Rightarrow> ustring \<Rightarrow> ustring \<Rightarrow> ustring" where
  "assemble authors year title journal_part =
     (let apa = [];
          apa = (if authors \<noteq> [] then apa @ authors @ [32] else apa);
          apa = (if year \<noteq> [] then apa @ [40] @ year @ [41, 46, 32] else apa);
          apa = (if title \<noteq> [] then apa @ title @ [46, 32] else apa);
          apa = (if journal_part \<noteq> [] then apa @ journal_part @ [46] else apa)
      in strip (re_sub pat_spaces (\<lambda>_. [32]) apa))"

text \<open>The line that \<open>PaperFromBib\<close> prints for a field mapping, or what it raises.\<close>

definition apa_line :: "fields \<Rightarrow> error + ustring" where
  "apa_line fields =
     (case format_authors_apa (get_field fields (ustr ''author'')) of
        Inl e \<Rightarrow> Inl e
      | Inr authors \<Rightarrow>
          let year = clean_field fields (ustr ''year'');
              title = clean_field fields (ustr ''title'');
              journal = clean_field fields (ustr ''journal'');
              volume = clean_field fields (ustr ''volume'');
              number = clean_field fields (ustr ''number'')
          in Inr (assemble authors year title (journal_segment journal volume number)))"

section \<open>The field extractor and the program\<close>

text \<open>
  The BibTeX library, the file system and the input stream are collaborators outside the
  repository, and \<open>str.lower\<close> is the language's; the program is modelled over any of them.
  An entry is the list of its items, in the order of the dictionary.
\<close>

type_synonym entry = "(ustring \<times> ustring) list"

record world =
  loads :: "ustring \<Rightarrow> error + entry list"
  lower :: "ustring \<Rightarrow> ustring"
  arg_text :: "ustring option"
  arg_file :: "ustring option"
  read_file :: "ustring \<Rightarrow> error + ustring"
  stdin_isatty :: bool
  stdin_read :: "error + ustring"
  help_text :: ustring

record console =
  stdout :: "ustring list"
  stderr :: "ustring list"

text \<open>How a run ends: \<open>Exit n\<close>, or an exception that nothing catches.\<close>

datatype ending = Exit nat | Uncaught error

text \<open>\<open>{k.lower(): v for k, v in entry.items()}\<close>: a later item wins.\<close>

definition lower_keys :: "(ustring \<Rightarrow> ustring) \<Rightarrow> entry \<Rightarrow> fields" where
  "lower_keys low entry = foldl (\<lambda>m (k, v). m(low k \<mapsto> v)) Map.empty entry"

text \<open>The mapping, and the lines written to the error stream.\<close>

definition parse_bib_fields :: "world \<Rightarrow> ustring \<Rightarrow> fields \<times> ustring list" where
  "parse_bib_fields w paper =
     (if paper = [] then (Map.empty, [])
      else
        (case loads w paper of
           Inl e \<Rightarrow> (Map.empty, [ustr ''Error parsing BibTeX with bibtexparser: '' @ str_of_error e])
         | Inr [] \<Rightarrow> (Map.empty, [])
         | Inr (entry # _) \<Rightarrow> (lower_keys (lower w) entry, [])))"

definition PaperFromBib :: "world \<Rightarrow> ustring \<Rightarrow> console \<Rightarrow> error option \<times> console" where
  "PaperFromBib w paper con =
     (let (fields, diagnostics) = parse_bib_fields w paper;
          con = con\<lparr>stderr := stderr con @ diagnostics\<rparr>
      in case apa_line fields of
           Inl e \<Rightarrow> (Some e, con)
         | Inr apa \<Rightarrow> (None, con\<lparr>stdout := stdout con @ [apa]\<rparr>))"

text \<open>\<open>if args.text\<close>, \<open>if args.file\<close>: neither \<open>None\<close> nor empty.\<close>

fun truthy :: "ustring option \<Rightarrow> bool" where
  "truthy None = False"
| "truthy (Some s) = (s \<noteq> [])"

definition main :: "world \<Rightarrow> console \<times> ending" where
  "main w =
     (let con = \<lparr>stdout = [], stderr = []\<rparr> in
      if truthy (arg_text w) then
        (case PaperFromBib w (the (arg_text w)) con of
           (None, con) \<Rightarrow> (con, Exit 0)
         | (Some e, con) \<Rightarrow> (con, Uncaught e))
      else if truthy (arg_file w) then
        (let file = the (arg_file w);
             failed = (\<lambda>e con. (con\<lparr>stderr := stderr con @
                         [ustr ''Error reading '' @ [96, 32] @ file @ [32, 96] @ ustr '': '' @ str_of_error e]\<rparr>,
                       Exit 1))
         in case read_file w file of
              Inl e \<Rightarrow> failed e con
            | Inr paper \<Rightarrow>
                (case PaperFromBib w paper con of
                   (None, con) \<Rightarrow> (con, Exit 0)
                 | (Some e, con) \<Rightarrow> failed e con))
      else if \<not> stdin_isatty w then
        (case stdin_read w of
           Inl e \<Rightarrow> (con, Uncaught e)
         | Inr paper \<Rightarrow>
             (case PaperFromBib w paper con of
                (None, con) \<Rightarrow> (con, Exit 0)
              | (Some e, con) \<Rightarrow> (con, Uncaught e)))
      else (con\<lparr>stdout := stdout con @ [help_text w]\<rparr>, Exit 0))"

section \<open>Notions of the specification\<close>

text \<open>
  The journal segment as the specification words it: with a volume the journal and a comma
  come first, whatever the journal is.
\<close>

definition worded_journal_segment :: "ustring \<Rightarrow> ustring \<Rightarrow> ustring \<Rightarrow> ustring" where
  "worded_journal_segment journal volume number =
     (if volume \<noteq> [] \<and> number \<noteq> [] then journal @ [44, 32] @ volume @ [40] @ number @ [41]
      else if volume \<noteq> [] then journal @ [44, 32] @ volume
      else if number \<noteq> [] then
        (if journal \<noteq> [] then journal @ [44, 32] @ [40] @ number @ [41] else [40] @ number @ [41])
      else journal)"

text \<open>A literal separator as a pattern, and \<open>s.split(sep)\<close>.\<close>

definition pat_literal :: "ustring \<Rightarrow> pattern" where
  "pat_literal sep s = (if sep \<noteq> [] \<and> take (length sep) s = sep then Some (length sep) else None)"

definition split_literal :: "ustring \<Rightarrow> ustring \<Rightarrow> ustring list" where
  "split_literal sep s = re_split (pat_literal sep) s"

text \<open>Text whose only whitespace is the space character, never two in a row.\<close>

fun single_spaced :: "ustring \<Rightarrow> bool" where
  "single_spaced [] = True"
| "single_spaced [c] = (is_space c \<longrightarrow> c = 32)"
| "single_spaced (c # d # r) = ((is_space c \<longrightarrow> c = 32 \<and> \<not> is_space d) \<and> single_spaced (d # r))"

text \<open>A pattern matches nowhere in a text.\<close>

fun matches_nowhere :: "pattern \<Rightarrow> ustring \<Rightarrow> bool" where
  "matches_nowhere pat [] = True"
| "matches_nowhere pat (c # cs) = (pat (c # cs) = None \<and> matches_nowhere pat cs)"

text \<open>One of the four accent macros of the unescaper is left somewhere in a text.\<close>

definition has_macro :: "ustring \<Rightarrow> bool" where
  "has_macro s \<longleftrightarrow>
     \<not> (matches_nowhere pat_acute s \<and> matches_nowhere pat_grave s \<and>
        matches_nowhere pat_tilde s \<and> matches_nowhere pat_umlaut s)"


text \<open>A run on inline text that the library rejects.\<close>

definition failing_world :: world where
  "failing_world =
     \<lparr>loads = (\<lambda>_. Inl (External (ustr ''Expected }''))), lower = id,
      arg_text = Some (ustr ''@article{k, title = {A''), arg_file = None,
      read_file = (\<lambda>_. Inl (External [])), stdin_isatty = True, stdin_read = Inr [],
      help_text = []\<rparr>"

text \<open>
  A run on an inline entry with a title and a year only.  The library is taken to return
  the entry with its keys as written, and \<open>ascii_lower\<close> is \<open>str.lower\<close> on ASCII text.
\<close>

definition ascii_lower :: "ustring \<Rightarrow> ustring" where
  "ascii_lower s = map (\<lambda>c. if 65 \<le> c \<and> c \<le> 90 then c + 32 else c) s"

definition study_text :: ustring where
  "study_text = ustr ''@article{key1, Title = {A Study}, year = {2020}}''"

definition study_entry :: entry where
  "study_entry =
     [(ustr ''ENTRYTYPE'', ustr ''article''), (ustr ''ID'', ustr ''key1''),
      (ustr ''Title'', ustr ''A Study''), (ustr ''year'', ustr ''2020'')]"

definition study_world :: world where
  "study_world =
     \<lparr>loads = (\<lambda>_. Inr [study_entry]), lower = ascii_lower,
      arg_text = Some study_text, arg_file = None,
      read_file = (\<lambda>_. Inl (External [])), stdin_isatty = True, stdin_read = Inr [],
      help_text = []\<rparr>"

text \<open>The same run when the library returns an entry whose author field starts with an empty pair of braces.\<close>

definition braces_world :: world where
  "braces_world = study_world\<lparr>loads := (\<lambda>_. Inr [[(ustr ''Author'', ustr ''{} and B'')]])\<rparr>"

section \<open>Evaluation\<close>

lemmas text_defs = ustr_def is_space_def is_letter_def strip_def split_ws_def replace_char_def

lemmas pattern_defs = pat_acute_def pat_macro_def pat_grave_def pat_tilde_def pat_umlaut_def
  pat_spaces_def pat_and_def re_split_def

lemmas unescape_defs = unescape_latex_def accents_def tilde_n_def umlauts_def on_group_def

lemmas author_defs = initials_of_def split_name_def format_name_def join_names_def
  format_authors_apa_def

lemmas assembler_defs = get_field_def clean_field_def journal_segment_def assemble_def
  apa_line_def

section \<open>The author formatter on empty segments\<close>

text \<open>A segment makes the formatter raise exactly when it has neither a comma nor a token.\<close>

lemma format_name_raises:
  "format_name seg = Inl e \<longleftrightarrow>
     e = IndexError \<and> 44 \<notin> set (unescape_latex (strip seg)) \<and>
     split_ws (unescape_latex (strip seg)) = []"
  by (auto simp: format_name_def split_name_def Let_def split: sum.splits list.splits if_splits)

text \<open>
  C1.  The author formatter is claimed to return a string on every author field, also on one
  with an empty segment, a leading or a trailing separator for instance.  On the fields
  \<open>" and B"\<close> and \<open>"A and "\<close> one segment is empty, on \<open>"{} and B"\<close> one is empty once
  unescaped; such a segment has no token, \<open>tokens[-1]\<close> raises \<open>IndexError\<close>, and no line is
  made for the entry.
\<close>

theorem format_authors_apa_empty_segment_raises:
  "format_authors_apa (ustr '' and B'') = Inl IndexError \<and>
   format_authors_apa (ustr ''A and '') = Inl IndexError \<and>
   format_authors_apa (ustr ''{} and B'') = Inl IndexError \<and>
   apa_line [ustr ''author'' \<mapsto> ustr ''{} and B'', ustr ''title'' \<mapsto> ustr ''T''] = Inl IndexError"
  by (simp add: text_defs pattern_defs unescape_defs author_defs assembler_defs)

section \<open>The journal segment\<close>

text \<open>
  C3, as worded.  With a volume, a number and no journal the code prints the volume part
  alone, \<open>"5(2)"\<close>; the wording puts the journal and a comma first, \<open>", 5(2)"\<close>.
\<close>

theorem journal_segment_worded_counterexample:
  "journal_segment [] (ustr ''5'') (ustr ''2'') = ustr ''5(2)'' \<and>
   worded_journal_segment [] (ustr ''5'') (ustr ''2'') = ustr '', 5(2)'' \<and>
   journal_segment [] (ustr ''5'') (ustr ''2'') \<noteq> worded_journal_segment [] (ustr ''5'') (ustr ''2'')"
  by (simp add: journal_segment_def worded_journal_segment_def ustr_def)

text \<open>
  C3, amended.  The volume part is \<open>volume(number)\<close>, \<open>volume\<close> or \<open>(number)\<close>; it follows the
  journal and a comma when the journal is not empty, and stands alone when the journal is
  empty; without volume and number the segment is the journal.  Journal \<open>J\<close> with volume
  \<open>5\<close> and no number gives \<open>"J, 5"\<close>.
\<close>

theorem journal_segment_cases:
  "(volume \<noteq> [] \<and> number \<noteq> [] \<longrightarrow>
      journal_segment journal volume number =
        (if journal \<noteq> [] then journal @ ustr '', '' @ volume @ ustr ''('' @ number @ ustr '')''
         else volume @ ustr ''('' @ number @ ustr '')'')) \<and>
   (volume \<noteq> [] \<and> number = [] \<longrightarrow>
      journal_segment journal volume number =
        (if journal \<noteq> [] then journal @ ustr '', '' @ volume else volume)) \<and>
   (volume = [] \<and> number \<noteq> [] \<longrightarrow>
      journal_segment journal volume number =
        (if journal \<noteq> [] then journal @ ustr '', '' @ ustr ''('' @ number @ ustr '')''
         else ustr ''('' @ number @ ustr '')'')) \<and>
   (volume = [] \<and> number = [] \<longrightarrow> journal_segment journal volume number = journal) \<and>
   journal_segment (ustr ''J'') (ustr ''5'') [] = ustr ''J, 5''"
  by (simp add: journal_segment_def ustr_def)

theorem journal_segment_cases_witness:
  "journal_segment (ustr ''Journal of Things'') (ustr ''5'') (ustr ''2'') =
     ustr ''Journal of Things, 5(2)'' \<and>
   journal_segment [] (ustr ''5'') [] = ustr ''5'' \<and>
   journal_segment (ustr ''J'') [] (ustr ''2'') = ustr ''J, (2)'' \<and>
   journal_segment (ustr ''J'') [] [] = ustr ''J''"
  using journal_segment_cases [of "ustr ''5''" "ustr ''2''" "ustr ''Journal of Things''"]
    journal_segment_cases [of "ustr ''5''" "[]" "[]"]
    journal_segment_cases [of "[]" "ustr ''2''" "ustr ''J''"]
    journal_segment_cases [of "[]" "[]" "ustr ''J''"]
  by (simp add: ustr_def)

section \<open>Joining the formatted names\<close>

lemma join_names_three:
  "3 \<le> length names \<Longrightarrow>
   join_names names = Inr (join (ustr '', '') (butlast names) @ ustr '', & '' @ last names)"
  by (auto simp: join_names_def split: list.splits)

text \<open>
  C8.  One name is returned as it is, two names give \<open>"A, & B"\<close>, three or more give the names
  before the last joined by \<open>", "\<close>, then \<open>", & "\<close> and the last; the formatter joins the
  formatted segments so, as on the two examples of the specification.
\<close>

theorem join_names_cases:
  "(names = [a] \<longrightarrow> join_names names = Inr a) \<and>
   (names = [a, b] \<longrightarrow> join_names names = Inr (a @ ustr '', & '' @ b)) \<and>
   (3 \<le> length names \<longrightarrow>
      join_names names = Inr (join (ustr '', '') (butlast names) @ ustr '', & '' @ last names)) \<and>
   (authors_field \<noteq> [] \<and> format_names (re_split pat_and authors_field) = Inr names \<longrightarrow>
      format_authors_apa authors_field = join_names names) \<and>
   format_authors_apa (ustr ''John Smith and Jane Doe'') = Inr (ustr ''Smith, J., & Doe, J.'') \<and>
   format_authors_apa (ustr ''A B and C D and E F'') = Inr (ustr ''B, A., D, C., & F, E.'')"
proof -
  have one: "join_names [a] = Inr a"
    by (simp add: join_names_def)
  have two: "join_names [a, b] = Inr (a @ ustr '', & '' @ b)"
    by (simp add: join_names_def)
  have whole: "authors_field \<noteq> [] \<and> format_names (re_split pat_and authors_field) = Inr names \<longrightarrow>
      format_authors_apa authors_field = join_names names"
    by (simp add: format_authors_apa_def)
  have ex2: "format_authors_apa (ustr ''John Smith and Jane Doe'') = Inr (ustr ''Smith, J., & Doe, J.'')"
    by (simp add: text_defs pattern_defs unescape_defs author_defs)
  have ex3: "format_authors_apa (ustr ''A B and C D and E F'') = Inr (ustr ''B, A., D, C., & F, E.'')"
    by (simp add: text_defs pattern_defs unescape_defs author_defs)
  show ?thesis
    using one two whole ex2 ex3 join_names_three [of names] by blast
qed

theorem join_names_cases_witness:
  "join_names [ustr ''Smith, J.''] = Inr (ustr ''Smith, J.'') \<and>
   join_names [ustr ''Smith, J.'', ustr ''Doe, J.''] = Inr (ustr ''Smith, J., & Doe, J.'') \<and>
   join_names [ustr ''B, A.'', ustr ''D, C.'', ustr ''F, E.''] = Inr (ustr ''B, A., D, C., & F, E.'') \<and>
   format_authors_apa (ustr ''A B and C D'') = join_names [ustr ''B, A.'', ustr ''D, C.'']"
proof -
  have split: "ustr ''A B and C D'' \<noteq> [] \<and>
      format_names (re_split pat_and (ustr ''A B and C D'')) = Inr [ustr ''B, A.'', ustr ''D, C.'']"
    by (simp add: text_defs pattern_defs unescape_defs author_defs)
  show ?thesis
    using split
      join_names_cases [of "[ustr ''Smith, J.'']" "ustr ''Smith, J.''" "[]" "[]"]
      join_names_cases [of "[ustr ''Smith, J.'', ustr ''Doe, J.'']" "ustr ''Smith, J.''" "ustr ''Doe, J.''" "[]"]
      join_names_cases [of "[ustr ''B, A.'', ustr ''D, C.'', ustr ''F, E.'']" "[]" "[]" "[]"]
      join_names_cases [of "[ustr ''B, A.'', ustr ''D, C.'']" "[]" "[]" "ustr ''A B and C D''"]
    by (simp add: ustr_def)
qed

section \<open>Assembling the reference\<close>

lemma unescape_latex_Nil: "unescape_latex [] = []"
  by (simp add: unescape_latex_def)

lemma strip_Nil: "strip [] = []"
  by (simp add: strip_def)

lemma format_authors_apa_Nil: "format_authors_apa [] = Inr []"
  by (simp add: format_authors_apa_def)

lemma clean_field_absent: "get_field fs key = [] \<Longrightarrow> clean_field fs key = []"
  by (simp add: clean_field_def unescape_latex_Nil strip_Nil)

lemma journal_segment_Nil: "journal_segment [] [] [] = []"
  by (simp add: journal_segment_def)

lemma assemble_Nil: "assemble [] [] [] [] = []"
  by (simp add: assemble_def strip_Nil)

lemma apa_line_all_empty:
  assumes "get_field fs (ustr ''author'') = []" "get_field fs (ustr ''year'') = []"
    "get_field fs (ustr ''title'') = []" "get_field fs (ustr ''journal'') = []"
    "get_field fs (ustr ''volume'') = []" "get_field fs (ustr ''number'') = []"
  shows "apa_line fs = Inr []"
  using assms
  by (simp add: apa_line_def clean_field_absent format_authors_apa_Nil journal_segment_Nil
      assemble_Nil)

lemma apa_line_empty: "apa_line Map.empty = Inr []"
  by (rule apa_line_all_empty) (simp_all add: get_field_def)

lemma apa_line_error:
  "(apa_line fs = Inl e) = (format_authors_apa (get_field fs (ustr ''author'')) = Inl e)"
  by (simp add: apa_line_def Let_def split: sum.splits)

lemma parse_bib_fields_Nil: "parse_bib_fields w [] = (Map.empty, [])"
  by (simp add: parse_bib_fields_def)

lemma PaperFromBib_Nil: "PaperFromBib w [] con = (None, con\<lparr>stdout := stdout con @ [[]]\<rparr>)"
  by (simp add: PaperFromBib_def parse_bib_fields_Nil apa_line_empty)

lemma apa_line_assembled:
  assumes "format_authors_apa (get_field fs (ustr ''author'')) = Inr authors"
  shows "apa_line fs =
     Inr (assemble authors
            (strip (unescape_latex (get_field fs (ustr ''year''))))
            (strip (unescape_latex (get_field fs (ustr ''title''))))
            (journal_segment
               (strip (unescape_latex (get_field fs (ustr ''journal''))))
               (strip (unescape_latex (get_field fs (ustr ''volume''))))
               (strip (unescape_latex (get_field fs (ustr ''number''))))))"
  using assms by (simp add: apa_line_def clean_field_def)

lemma PaperFromBib_prints:
  assumes "parse_bib_fields w paper = (fs, diagnostics)" "apa_line fs = Inr line"
  shows "PaperFromBib w paper con =
     (None, \<lparr>stdout = stdout con @ [line], stderr = stderr con @ diagnostics\<rparr>)"
  using assms by (simp add: PaperFromBib_def)

lemma PaperFromBib_raises:
  assumes "parse_bib_fields w paper = (fs, diagnostics)" "apa_line fs = Inl e"
  shows "PaperFromBib w paper con =
     (Some e, \<lparr>stdout = stdout con, stderr = stderr con @ diagnostics\<rparr>)"
  using assms by (simp add: PaperFromBib_def)

lemma parse_bib_fields_first_entry:
  "paper \<noteq> [] \<Longrightarrow> loads w paper = Inr (entry # others) \<Longrightarrow>
   parse_bib_fields w paper = (lower_keys (lower w) entry, [])"
  by (simp add: parse_bib_fields_def)

lemma main_prints:
  assumes "arg_text w = Some paper \<and> paper \<noteq> [] \<or>
         \<not> truthy (arg_text w) \<and> truthy (arg_file w) \<and>
           read_file w (the (arg_file w)) = Inr paper \<or>
         \<not> truthy (arg_text w) \<and> \<not> truthy (arg_file w) \<and> \<not> stdin_isatty w \<and>
           stdin_read w = Inr paper"
    and run: "PaperFromBib w paper \<lparr>stdout = [], stderr = []\<rparr> = (None, out)"
  shows "main w = (out, Exit 0)"
  using assms(1)
proof (elim disjE conjE)
  assume "arg_text w = Some paper" "paper \<noteq> []"
  then show ?thesis
    using run by (simp add: main_def)
next
  assume "\<not> truthy (arg_text w)" "truthy (arg_file w)"
    "read_file w (the (arg_file w)) = Inr paper"
  then show ?thesis
    using run by (simp add: main_def)
next
  assume "\<not> truthy (arg_text w)" "\<not> truthy (arg_file w)" "\<not> stdin_isatty w"
    "stdin_read w = Inr paper"
  then show ?thesis
    using run by (simp add: main_def)
qed

lemmas program_defs = lower_keys_def parse_bib_fields_def PaperFromBib_def main_def

text \<open>
  C9.  The assembled line is the concatenation, in order, of the parts that are not empty,
  each with its punctuation (\<open>"authors "\<close>, \<open>"(year). "\<close>, \<open>"title. "\<close>, \<open>"journal_part."\<close>),
  with whitespace runs collapsed and the ends trimmed.  The parts are the formatted authors,
  the year and the title unescaped and trimmed, and the journal segment of the unescaped and
  trimmed journal, volume and number; a lookup gives the value of a field that is present and
  the empty string for one that is absent.  \<open>PaperFromBib\<close> prints this line, after the
  diagnostics of the extractor, for the first entry that the library returns, with its keys
  in lower case.  With title \<open>A Study\<close> and year \<open>2020\<close> alone the program prints
  \<open>"(2020). A Study."\<close>; with every field empty the line is empty, as on empty text; the
  entry of the specification gives its full reference.  The assembly adds no exception: the
  line is an error exactly when the author formatter, called before the assembly, raised it,
  and nothing is printed then.
\<close>

theorem assemble_parts:
  "assemble authors year title journal_part =
     strip (re_sub pat_spaces (\<lambda>_. ustr '' '')
       (concat [if authors = [] then [] else authors @ ustr '' '',
                if year = [] then [] else ustr ''('' @ year @ ustr ''). '',
                if title = [] then [] else title @ ustr ''. '',
                if journal_part = [] then [] else journal_part @ ustr ''.''])) \<and>
   apa_line [ustr ''title'' \<mapsto> ustr ''A Study'', ustr ''year'' \<mapsto> ustr ''2020''] =
     Inr (ustr ''(2020). A Study.'') \<and>
   (get_field fs (ustr ''author'') = [] \<and> get_field fs (ustr ''year'') = [] \<and>
    get_field fs (ustr ''title'') = [] \<and> get_field fs (ustr ''journal'') = [] \<and>
    get_field fs (ustr ''volume'') = [] \<and> get_field fs (ustr ''number'') = [] \<longrightarrow>
      apa_line fs = Inr []) \<and>
   PaperFromBib w [] con = (None, con\<lparr>stdout := stdout con @ [[]]\<rparr>) \<and>
   (fs key = None \<longrightarrow> get_field fs key = []) \<and>
   (apa_line fs = Inl e) = (format_authors_apa (get_field fs (ustr ''author'')) = Inl e) \<and>
   (fs key = Some v \<longrightarrow> get_field fs key = v) \<and>
   (format_authors_apa (get_field fs (ustr ''author'')) = Inr authors \<longrightarrow>
      apa_line fs =
        Inr (assemble authors
               (strip (unescape_latex (get_field fs (ustr ''year''))))
               (strip (unescape_latex (get_field fs (ustr ''title''))))
               (journal_segment
                  (strip (unescape_latex (get_field fs (ustr ''journal''))))
                  (strip (unescape_latex (get_field fs (ustr ''volume''))))
                  (strip (unescape_latex (get_field fs (ustr ''number''))))))) \<and>
   (parse_bib_fields w paper = (fs, diagnostics) \<and> apa_line fs = Inr line \<longrightarrow>
      PaperFromBib w paper con =
        (None, \<lparr>stdout = stdout con @ [line], stderr = stderr con @ diagnostics\<rparr>)) \<and>
   (parse_bib_fields w paper = (fs, diagnostics) \<and> apa_line fs = Inl e \<longrightarrow>
      PaperFromBib w paper con =
        (Some e, \<lparr>stdout = stdout con, stderr = stderr con @ diagnostics\<rparr>)) \<and>
   (paper \<noteq> [] \<and> loads w paper = Inr (entry # others) \<longrightarrow>
      parse_bib_fields w paper = (lower_keys (lower w) entry, [])) \<and>
   main study_world = (\<lparr>stdout = [ustr ''(2020). A Study.''], stderr = []\<rparr>, Exit 0) \<and>
   apa_line
     [ustr ''author'' \<mapsto> ustr ''John Smith and Jane Doe'', ustr ''title'' \<mapsto> ustr ''A Study'',
      ustr ''year'' \<mapsto> ustr ''2020'', ustr ''journal'' \<mapsto> ustr ''Journal of Things'',
      ustr ''volume'' \<mapsto> ustr ''5'', ustr ''number'' \<mapsto> ustr ''2''] =
     Inr (ustr ''Smith, J., & Doe, J. (2020). A Study. Journal of Things, 5(2).'') \<and>
   ((arg_text w = Some paper \<and> paper \<noteq> [] \<or>
     \<not> truthy (arg_text w) \<and> truthy (arg_file w) \<and>
       read_file w (the (arg_file w)) = Inr paper \<or>
     \<not> truthy (arg_text w) \<and> \<not> truthy (arg_file w) \<and> \<not> stdin_isatty w \<and>
       stdin_read w = Inr paper) \<and>
    PaperFromBib w paper \<lparr>stdout = [], stderr = []\<rparr> = (None, out) \<longrightarrow>
      main w = (out, Exit 0))"
proof (intro conjI impI)
  show "assemble authors year title journal_part =
     strip (re_sub pat_spaces (\<lambda>_. ustr '' '')
       (concat [if authors = [] then [] else authors @ ustr '' '',
                if year = [] then [] else ustr ''('' @ year @ ustr ''). '',
                if title = [] then [] else title @ ustr ''. '',
                if journal_part = [] then [] else journal_part @ ustr ''.'']))"
    by (simp add: assemble_def ustr_def del: re_sub.simps)
next
  show "apa_line [ustr ''title'' \<mapsto> ustr ''A Study'', ustr ''year'' \<mapsto> ustr ''2020''] =
     Inr (ustr ''(2020). A Study.'')"
    by (simp add: text_defs pattern_defs unescape_defs author_defs assembler_defs)
next
  assume "get_field fs (ustr ''author'') = [] \<and> get_field fs (ustr ''year'') = [] \<and>
    get_field fs (ustr ''title'') = [] \<and> get_field fs (ustr ''journal'') = [] \<and>
    get_field fs (ustr ''volume'') = [] \<and> get_field fs (ustr ''number'') = []"
  then show "apa_line fs = Inr []"
    using apa_line_all_empty [of fs] by simp
next
  show "PaperFromBib w [] con = (None, con\<lparr>stdout := stdout con @ [[]]\<rparr>)"
    by (rule PaperFromBib_Nil)
next
  assume "fs key = None"
  then show "get_field fs key = []"
    by (simp add: get_field_def)
next
  show "(apa_line fs = Inl e) = (format_authors_apa (get_field fs (ustr ''author'')) = Inl e)"
    by (rule apa_line_error)
next
  assume "fs key = Some v"
  then show "get_field fs key = v"
    by (simp add: get_field_def)
next
  assume "format_authors_apa (get_field fs (ustr ''author'')) = Inr authors"
  then show "apa_line fs =
        Inr (assemble authors
               (strip (unescape_latex (get_field fs (ustr ''year''))))
               (strip (unescape_latex (get_field fs (ustr ''title''))))
               (journal_segment
                  (strip (unescape_latex (get_field fs (ustr ''journal''))))
                  (strip (unescape_latex (get_field fs (ustr ''volume''))))
                  (strip (unescape_latex (get_field fs (ustr ''number''))))))"
    by (rule apa_line_assembled)
next
  assume "parse_bib_fields w paper = (fs, diagnostics) \<and> apa_line fs = Inr line"
  then show "PaperFromBib w paper con =
        (None, \<lparr>stdout = stdout con @ [line], stderr = stderr con @ diagnostics\<rparr>)"
    using PaperFromBib_prints [of w paper fs diagnostics line con] by simp
next
  assume "parse_bib_fields w paper = (fs, diagnostics) \<and> apa_line fs = Inl e"
  then show "PaperFromBib w paper con =
        (Some e, \<lparr>stdout = stdout con, stderr = stderr con @ diagnostics\<rparr>)"
    using PaperFromBib_raises [of w paper fs diagnostics e con] by simp
next
  assume "paper \<noteq> [] \<and> loads w paper = Inr (entry # others)"
  then show "parse_bib_fields w paper = (lower_keys (lower w) entry, [])"
    using parse_bib_fields_first_entry [of paper w entry others] by simp
next
  show "main study_world = (\<lparr>stdout = [ustr ''(2020). A Study.''], stderr = []\<rparr>, Exit 0)"
    by (simp add: study_world_def study_text_def study_entry_def ascii_lower_def program_defs
        text_defs pattern_defs unescape_defs author_defs assembler_defs)
next
  show "apa_line
     [ustr ''author'' \<mapsto> ustr ''John Smith and Jane Doe'', ustr ''title'' \<mapsto> ustr ''A Study'',
      ustr ''year'' \<mapsto> ustr ''2020'', ustr ''journal'' \<mapsto> ustr ''Journal of Things'',
      ustr ''volume'' \<mapsto> ustr ''5'', ustr ''number'' \<mapsto> ustr ''2''] =
     Inr (ustr ''Smith, J., & Doe, J. (2020). A Study. Journal of Things, 5(2).'')"
    by (simp add: text_defs pattern_defs unescape_defs author_defs assembler_defs)
next
  assume "(arg_text w = Some paper \<and> paper \<noteq> [] \<or>
     \<not> truthy (arg_text w) \<and> truthy (arg_file w) \<and>
       read_file w (the (arg_file w)) = Inr paper \<or>
     \<not> truthy (arg_text w) \<and> \<not> truthy (arg_file w) \<and> \<not> stdin_isatty w \<and>
       stdin_read w = Inr paper) \<and>
    PaperFromBib w paper \<lparr>stdout = [], stderr = []\<rparr> = (None, out)"
  then show "main w = (out, Exit 0)"
    using main_prints [of w paper out] by blast
qed

theorem assemble_parts_witness:
  "parse_bib_fields study_world study_text = (lower_keys ascii_lower study_entry, []) \<and>
   get_field (lower_keys ascii_lower study_entry) (ustr ''title'') = ustr ''A Study'' \<and>
   get_field (lower_keys ascii_lower study_entry) (ustr ''author'') = [] \<and>
   apa_line (lower_keys ascii_lower study_entry) = Inr (ustr ''(2020). A Study.'') \<and>
   PaperFromBib study_world study_text \<lparr>stdout = [], stderr = []\<rparr> =
     (None, \<lparr>stdout = [ustr ''(2020). A Study.''], stderr = []\<rparr>) \<and>
   main study_world = (\<lparr>stdout = [ustr ''(2020). A Study.''], stderr = []\<rparr>, Exit 0) \<and>
   PaperFromBib braces_world study_text \<lparr>stdout = [], stderr = []\<rparr> =
     (Some IndexError, \<lparr>stdout = [], stderr = []\<rparr>) \<and>
   apa_line Map.empty = Inr []"
proof -
  let ?fs = "lower_keys ascii_lower study_entry"
  let ?con = "\<lparr>stdout = [], stderr = []\<rparr>"
  let ?out = "\<lparr>stdout = [ustr ''(2020). A Study.''], stderr = []\<rparr>"
  note study = assemble_parts [where fs = ?fs and key = "ustr ''author''" and authors = "[]"
      and w = study_world and paper = study_text and con = ?con
      and entry = study_entry and others = "[]" and diagnostics = "[]"
      and line = "ustr ''(2020). A Study.''" and out = ?out]
  note titled = assemble_parts [where fs = ?fs and key = "ustr ''title''" and v = "ustr ''A Study''"]
  note unset = assemble_parts [where fs = "Map.empty :: fields"]
  let ?bs = "lower_keys ascii_lower [(ustr ''Author'', ustr ''{} and B'')]"
  note braces = assemble_parts [where fs = ?bs and e = IndexError
      and w = braces_world and paper = study_text and con = ?con
      and entry = "[(ustr ''Author'', ustr ''{} and B'')]" and others = "[]" and diagnostics = "[]"]
  have given: "study_text \<noteq> [] \<and> loads study_world study_text = Inr (study_entry # [])"
    by (simp add: study_world_def study_text_def ustr_def)
  have parsed: "parse_bib_fields study_world study_text = (?fs, [])"
    using study [THEN conjunct2, THEN conjunct2, THEN conjunct2, THEN conjunct2, THEN conjunct2, THEN conjunct2, THEN conjunct2, THEN conjunct2, THEN conjunct2, THEN conjunct2, THEN conjunct1, rule_format, OF given] by (simp add: study_world_def)
  have present: "?fs (ustr ''title'') = Some (ustr ''A Study'')"
    by (simp add: lower_keys_def study_entry_def ascii_lower_def ustr_def)
  have title: "get_field ?fs (ustr ''title'') = ustr ''A Study''"
    using titled [THEN conjunct2, THEN conjunct2, THEN conjunct2, THEN conjunct2, THEN conjunct2, THEN conjunct2, THEN conjunct1, rule_format, OF present] .
  have absent: "?fs (ustr ''author'') = None"
    by (simp add: lower_keys_def study_entry_def ascii_lower_def ustr_def)
  have author: "get_field ?fs (ustr ''author'') = []"
    using study [THEN conjunct2, THEN conjunct2, THEN conjunct2, THEN conjunct2, THEN conjunct1, rule_format, OF absent] .
  have formatted: "format_authors_apa (get_field ?fs (ustr ''author'')) = Inr []"
    using author by (simp add: format_authors_apa_Nil)
  have looked_up: "get_field ?fs (ustr ''year'') = ustr ''2020'' \<and>
      get_field ?fs (ustr ''journal'') = [] \<and> get_field ?fs (ustr ''volume'') = [] \<and>
      get_field ?fs (ustr ''number'') = []"
    by (simp add: get_field_def lower_keys_def study_entry_def ascii_lower_def ustr_def)
  have assembled: "assemble []
      (strip (unescape_latex (ustr ''2020''))) (strip (unescape_latex (ustr ''A Study'')))
      (journal_segment (strip (unescape_latex [])) (strip (unescape_latex []))
         (strip (unescape_latex []))) = ustr ''(2020). A Study.''"
    by (simp add: text_defs pattern_defs unescape_defs journal_segment_def assemble_def)
  have line: "apa_line ?fs = Inr (ustr ''(2020). A Study.'')"
    using study [THEN conjunct2, THEN conjunct2, THEN conjunct2, THEN conjunct2, THEN conjunct2, THEN conjunct2, THEN conjunct2, THEN conjunct1, rule_format, OF formatted] title looked_up assembled by simp
  have printed: "PaperFromBib study_world study_text ?con = (None, ?out)"
    using study [THEN conjunct2, THEN conjunct2, THEN conjunct2, THEN conjunct2, THEN conjunct2, THEN conjunct2, THEN conjunct2, THEN conjunct2, THEN conjunct1, rule_format, OF conjI [OF parsed line]] by simp
  have route: "arg_text study_world = Some study_text \<and> study_text \<noteq> [] \<or>
      \<not> truthy (arg_text study_world) \<and> truthy (arg_file study_world) \<and>
        read_file study_world (the (arg_file study_world)) = Inr study_text \<or>
      \<not> truthy (arg_text study_world) \<and> \<not> truthy (arg_file study_world) \<and>
        \<not> stdin_isatty study_world \<and> stdin_read study_world = Inr study_text"
    by (simp add: study_world_def study_text_def ustr_def)
  have ran: "main study_world = (?out, Exit 0)"
    using study [THEN conjunct2, THEN conjunct2, THEN conjunct2, THEN conjunct2, THEN conjunct2, THEN conjunct2, THEN conjunct2, THEN conjunct2, THEN conjunct2, THEN conjunct2, THEN conjunct2, THEN conjunct2, THEN conjunct2, rule_format, OF conjI [OF route printed]] .
  have braces_given: "study_text \<noteq> [] \<and>
      loads braces_world study_text = Inr ([(ustr ''Author'', ustr ''{} and B'')] # [])"
    by (simp add: braces_world_def study_world_def study_text_def ustr_def)
  have braces_parsed: "parse_bib_fields braces_world study_text = (?bs, [])"
    using braces [THEN conjunct2, THEN conjunct2, THEN conjunct2, THEN conjunct2, THEN conjunct2, THEN conjunct2, THEN conjunct2, THEN conjunct2, THEN conjunct2, THEN conjunct2, THEN conjunct1, rule_format, OF braces_given]
    by (simp add: braces_world_def study_world_def)
  have "format_authors_apa (get_field ?bs (ustr ''author'')) = Inl IndexError"
    by (simp add: get_field_def lower_keys_def ascii_lower_def text_defs pattern_defs
        unescape_defs author_defs)
  then have braces_line: "apa_line ?bs = Inl IndexError"
    using braces [THEN conjunct2, THEN conjunct2, THEN conjunct2, THEN conjunct2, THEN conjunct2, THEN conjunct1] by simp
  have raised: "PaperFromBib braces_world study_text ?con = (Some IndexError, ?con)"
    using braces [THEN conjunct2, THEN conjunct2, THEN conjunct2, THEN conjunct2, THEN conjunct2, THEN conjunct2, THEN conjunct2, THEN conjunct2, THEN conjunct2, THEN conjunct1, rule_format, OF conjI [OF braces_parsed braces_line]] by simp
  have blank: "get_field (Map.empty :: fields) (ustr ''author'') = [] \<and>
      get_field (Map.empty :: fields) (ustr ''year'') = [] \<and>
      get_field (Map.empty :: fields) (ustr ''title'') = [] \<and>
      get_field (Map.empty :: fields) (ustr ''journal'') = [] \<and>
      get_field (Map.empty :: fields) (ustr ''volume'') = [] \<and>
      get_field (Map.empty :: fields) (ustr ''number'') = []"
    by (simp add: get_field_def)
  have empty: "apa_line (Map.empty :: fields) = Inr []"
    using unset [THEN conjunct2, THEN conjunct2, THEN conjunct1, rule_format, OF blank] .
  show ?thesis
    using parsed title author line printed ran raised empty by (intro conjI)
qed

section \<open>Blank fields\<close>

lemma clean_field_upd_other:
  "k \<noteq> key \<Longrightarrow> clean_field (fs(key := x)) k = clean_field fs k"
  by (simp add: clean_field_def get_field_def)

lemma clean_field_blank:
  "strip (unescape_latex v) = [] \<Longrightarrow>
   clean_field (fs(key \<mapsto> v)) key = clean_field (fs(key := None)) key"
  by (simp add: clean_field_def get_field_def unescape_latex_Nil strip_Nil)

lemma clean_field_blank_any:
  "strip (unescape_latex v) = [] \<Longrightarrow>
   clean_field (fs(key \<mapsto> v)) k = clean_field (fs(key := None)) k"
  by (cases "k = key") (simp_all add: clean_field_blank clean_field_upd_other)

text \<open>
  C10.  In any field mapping, a year, title, journal, volume or number whose value
  unescapes and trims to the empty string gives the line that the mapping without this
  field gives.
\<close>

theorem blank_field_as_absent:
  assumes "key \<in> {ustr ''year'', ustr ''title'', ustr ''journal'', ustr ''volume'', ustr ''number''}"
    and "strip (unescape_latex v) = []"
  shows "apa_line (fs(key \<mapsto> v)) = apa_line (fs(key := None))"
proof -
  have "key \<noteq> ustr ''author''"
    using assms(1) by (auto simp: ustr_def)
  then have "get_field (fs(key \<mapsto> v)) (ustr ''author'') =
      get_field (fs(key := None)) (ustr ''author'')"
    by (simp add: get_field_def)
  then show ?thesis
    by (simp add: apa_line_def Let_def clean_field_blank_any [OF assms(2)] split: sum.splits)
qed

theorem blank_field_as_absent_witness:
  "apa_line [ustr ''year'' \<mapsto> ustr ''2020'', ustr ''title'' \<mapsto> ustr ''{ }''] = Inr (ustr ''(2020).'') \<and>
   apa_line [ustr ''year'' \<mapsto> ustr ''2020''] = Inr (ustr ''(2020).'')"
proof -
  have key: "ustr ''title'' \<in>
      {ustr ''year'', ustr ''title'', ustr ''journal'', ustr ''volume'', ustr ''number''}"
    by simp
  have blank: "strip (unescape_latex (ustr ''{ }'')) = []"
    by (simp add: text_defs pattern_defs unescape_defs)
  have absent: "apa_line ([ustr ''year'' \<mapsto> ustr ''2020''](ustr ''title'' := None)) =
      Inr (ustr ''(2020).'')"
    by (simp add: text_defs pattern_defs unescape_defs author_defs assembler_defs)
  have same: "[ustr ''year'' \<mapsto> ustr ''2020''](ustr ''title'' := None) =
      [ustr ''year'' \<mapsto> ustr ''2020'']"
    by (simp add: ustr_def)
  show ?thesis
    using blank_field_as_absent [OF key blank, of "[ustr ''year'' \<mapsto> ustr ''2020'']"] absent same
    by simp
qed

section \<open>A failing parser\<close>

lemma parse_bib_fields_failure:
  "paper \<noteq> [] \<Longrightarrow> loads w paper = Inl e \<Longrightarrow>
   parse_bib_fields w paper =
     (Map.empty, [ustr ''Error parsing BibTeX with bibtexparser: '' @ str_of_error e])"
  by (simp add: parse_bib_fields_def)

lemma PaperFromBib_failure:
  "paper \<noteq> [] \<Longrightarrow> loads w paper = Inl e \<Longrightarrow>
   PaperFromBib w paper con =
     (None, \<lparr>stdout = stdout con @ [[]],
             stderr = stderr con @
               [ustr ''Error parsing BibTeX with bibtexparser: '' @ str_of_error e]\<rparr>)"
  by (simp add: PaperFromBib_def parse_bib_fields_failure apa_line_empty)

text \<open>
  C5.  When the library raises on the text it is given (inline, read from the file, or read
  from the input stream), the extractor returns the empty mapping and one diagnostic for the
  error stream, and the run ends with status 0 after printing one empty line on standard
  output and the diagnostic on the error stream only.
\<close>

theorem parser_failure_is_caught:
  assumes "paper \<noteq> []" and "loads w paper = Inl e"
    and "arg_text w = Some paper \<or>
         \<not> truthy (arg_text w) \<and> truthy (arg_file w) \<and>
           read_file w (the (arg_file w)) = Inr paper \<or>
         \<not> truthy (arg_text w) \<and> \<not> truthy (arg_file w) \<and> \<not> stdin_isatty w \<and>
           stdin_read w = Inr paper"
  shows "parse_bib_fields w paper =
           (Map.empty, [ustr ''Error parsing BibTeX with bibtexparser: '' @ str_of_error e]) \<and>
         main w =
           (\<lparr>stdout = [[]],
             stderr = [ustr ''Error parsing BibTeX with bibtexparser: '' @ str_of_error e]\<rparr>,
            Exit 0)"
proof -
  let ?con = "\<lparr>stdout = [], stderr = []\<rparr>"
  have run: "PaperFromBib w paper ?con =
     (None, \<lparr>stdout = [[]],
             stderr = [ustr ''Error parsing BibTeX with bibtexparser: '' @ str_of_error e]\<rparr>)"
    using PaperFromBib_failure [OF assms(1,2), of ?con] by simp
  from assms(3) have "main w =
           (\<lparr>stdout = [[]],
             stderr = [ustr ''Error parsing BibTeX with bibtexparser: '' @ str_of_error e]\<rparr>,
            Exit 0)"
  proof (elim disjE conjE)
    assume "arg_text w = Some paper"
    then show ?thesis
      using assms(1) run by (simp add: main_def)
  next
    assume "\<not> truthy (arg_text w)" "truthy (arg_file w)"
      "read_file w (the (arg_file w)) = Inr paper"
    then show ?thesis
      using run by (simp add: main_def)
  next
    assume "\<not> truthy (arg_text w)" "\<not> truthy (arg_file w)" "\<not> stdin_isatty w"
      "stdin_read w = Inr paper"
    then show ?thesis
      using run by (simp add: main_def)
  qed
  then show ?thesis
    using parse_bib_fields_failure [OF assms(1,2)] by simp
qed

theorem parser_failure_is_caught_witness:
  "main failing_world =
     (\<lparr>stdout = [[]], stderr = [ustr ''Error parsing BibTeX with bibtexparser: Expected }'']\<rparr>,
      Exit 0)"
proof -
  have given: "ustr ''@article{k, title = {A'' \<noteq> []"
    by (simp add: ustr_def)
  have fails: "loads failing_world (ustr ''@article{k, title = {A'') =
      Inl (External (ustr ''Expected }''))"
    by (simp add: failing_world_def)
  have route: "arg_text failing_world = Some (ustr ''@article{k, title = {A'') \<or>
         \<not> truthy (arg_text failing_world) \<and> truthy (arg_file failing_world) \<and>
           read_file failing_world (the (arg_file failing_world)) =
             Inr (ustr ''@article{k, title = {A'') \<or>
         \<not> truthy (arg_text failing_world) \<and> \<not> truthy (arg_file failing_world) \<and>
           \<not> stdin_isatty failing_world \<and>
           stdin_read failing_world = Inr (ustr ''@article{k, title = {A'')"
    by (simp add: failing_world_def)
  show ?thesis
    using parser_failure_is_caught [OF given fails route] by (simp add: ustr_def)
qed

section \<open>The accent macros\<close>

lemma letter_plain:
  assumes "is_letter x"
  shows "x \<noteq> 10" "x \<noteq> 92" "x \<noteq> 39" "x \<noteq> 123" "x \<noteq> 125" "\<not> is_space x"
  using assms by (auto simp: is_letter_def is_space_def)

lemma accents_plain:
  assumes "is_letter x"
  shows "accents x \<noteq> 123" "accents x \<noteq> 125" "\<not> is_space (accents x)"
  using assms by (auto simp: accents_def is_letter_def is_space_def)

lemma umlauts_plain:
  assumes "is_letter x"
  shows "umlauts x \<noteq> 123" "umlauts x \<noteq> 125" "\<not> is_space (umlauts x)"
  using assms by (auto simp: umlauts_def is_letter_def is_space_def)

lemmas macro_defs = unescape_latex_def replace_char_def pat_acute_def pat_macro_def pat_grave_def
  pat_tilde_def pat_umlaut_def pat_spaces_def on_group_def strip_def

lemma acute_macro:
  assumes "is_letter x"
  shows "unescape_latex [92, 39, x] = [accents x]"
  using letter_plain [OF assms] accents_plain [OF assms] assms
  by (simp add: macro_defs)

lemma acute_backslash_macro:
  assumes "is_letter x"
  shows "unescape_latex [92, 39, 92, x] = [accents x]"
  using letter_plain [OF assms] accents_plain [OF assms] assms
  by (simp add: macro_defs)

lemma grave_macro:
  assumes "is_letter x"
  shows "unescape_latex [92, 96, x] = [x]"
  using letter_plain [OF assms] assms
  by (simp add: macro_defs)

lemma umlaut_macro:
  assumes "is_letter x"
  shows "unescape_latex [92, 34, x] = [umlauts x]"
  using letter_plain [OF assms] umlauts_plain [OF assms] assms
  by (simp add: macro_defs)

lemma tilde_macro:
  "unescape_latex [92, 126, 110] = [241]" "unescape_latex [92, 126, 78] = [209]"
  by (simp_all add: macro_defs tilde_n_def is_space_def is_letter_def)

lemma accents_table:
  "map accents [97, 101, 105, 111, 117, 65, 69, 73, 79, 85, 110, 78] =
     [225, 233, 237, 243, 250, 193, 201, 205, 211, 218, 241, 209]"
  "x \<notin> {97, 101, 105, 111, 117, 65, 69, 73, 79, 85, 110, 78} \<Longrightarrow> accents x = x"
  by (simp_all add: accents_def)

text \<open>
  C6.  For a letter \<open>x\<close> of \<open>[A-Za-z]\<close>: \<open>\'x\<close> and \<open>\'\x\<close> unescape to the entry of the accent
  table for \<open>x\<close>, which is the acute vowel for \<open>a e i o u A E I O U\<close>, the letter with tilde for
  \<open>n N\<close>, and \<open>x\<close> itself otherwise; \<open>\`x\<close> unescapes to \<open>x\<close>; \<open>\~n\<close> and \<open>\~N\<close> to the letters
  with tilde; \<open>\"x\<close> to the umlaut for \<open>o O\<close> and to \<open>x\<close> otherwise.
\<close>

theorem accent_macros:
  assumes "is_letter x"
  shows "unescape_latex [92, 39, x] = [accents x] \<and>
         unescape_latex [92, 39, 92, x] = [accents x] \<and>
         map accents [97, 101, 105, 111, 117, 65, 69, 73, 79, 85, 110, 78] =
           [225, 233, 237, 243, 250, 193, 201, 205, 211, 218, 241, 209] \<and>
         (x \<notin> {97, 101, 105, 111, 117, 65, 69, 73, 79, 85, 110, 78} \<longrightarrow> accents x = x) \<and>
         unescape_latex [92, 96, x] = [x] \<and>
         unescape_latex [92, 126, 110] = [241] \<and>
         unescape_latex [92, 126, 78] = [209] \<and>
         unescape_latex [92, 34, x] = [if x = 111 then 246 else if x = 79 then 214 else x]"
  using acute_macro [OF assms] acute_backslash_macro [OF assms] grave_macro [OF assms]
    umlaut_macro [OF assms] tilde_macro accents_table
  by (simp add: umlauts_def)

theorem accent_macros_witness:
  "unescape_latex [92, 39, 101] = [233] \<and> unescape_latex [92, 39, 92, 105] = [237] \<and>
   unescape_latex [92, 39, 122] = [122] \<and> unescape_latex [92, 96, 97] = [97] \<and>
   unescape_latex [92, 34, 111] = [246] \<and> unescape_latex [92, 34, 117] = [117]"
proof -
  have letters: "is_letter 101" "is_letter 105" "is_letter 122" "is_letter 97" "is_letter 111" "is_letter 117"
    by (simp_all add: is_letter_def)
  show ?thesis
    using accent_macros [OF letters(1)] accent_macros [OF letters(2)] accent_macros [OF letters(3)]
      accent_macros [OF letters(4)] accent_macros [OF letters(5)] accent_macros [OF letters(6)]
    by (simp add: accents_def)
qed

section \<open>One author segment\<close>









lemma strip_plain_ends:
  "s \<noteq> [] \<Longrightarrow> \<not> is_space (hd s) \<Longrightarrow> \<not> is_space (last s) \<Longrightarrow> strip s = s"
proof -
  assume "s \<noteq> []" "\<not> is_space (hd s)" "\<not> is_space (last s)"
  then have "dropWhile is_space s = s" "dropWhile is_space (rev s) = rev s"
    by (cases s, simp_all) (cases s rule: rev_cases, simp_all)
  then show ?thesis
    by (simp add: strip_def)
qed













section \<open>Unescaping twice\<close>

lemma re_sub_nowhere: "matches_nowhere pat s \<Longrightarrow> re_sub pat repl s = s"
  by (induction s) simp_all

lemma replace_char_absent: "a \<notin> set s \<Longrightarrow> replace_char a b s = s"
  by (induction s) (simp_all add: replace_char_def)

lemma replace_char_removes: "a \<notin> set (replace_char a [] s)"
  by (induction s) (simp_all add: replace_char_def)

lemma replace_char_subset: "set (replace_char a [] s) \<subseteq> set s"
  by (induction s) (auto simp: replace_char_def)

lemma collapse_Cons:
  "re_sub pat_spaces (\<lambda>_. [32]) (c # cs) =
     (if is_space c then 32 # re_sub pat_spaces (\<lambda>_. [32]) (dropWhile is_space cs)
      else c # re_sub pat_spaces (\<lambda>_. [32]) cs)"
  by (simp add: pat_spaces_def dropWhile_eq_drop)

lemma collapse_subset: "set (re_sub pat_spaces (\<lambda>_. [32]) s) \<subseteq> insert 32 (set s)"
proof (induction "length s" arbitrary: s rule: less_induct)
  case less
  show ?case
  proof (cases s)
    case Nil
    then show ?thesis by simp
  next
    case (Cons c cs)
    have "length (dropWhile is_space cs) < length s"
      using Cons length_dropWhile_le [of is_space cs] by simp
    then have "set (re_sub pat_spaces (\<lambda>_. [32]) (dropWhile is_space cs))
        \<subseteq> insert 32 (set (dropWhile is_space cs))"
      by (rule less)
    moreover have "set (re_sub pat_spaces (\<lambda>_. [32]) cs) \<subseteq> insert 32 (set cs)"
      using less [of cs] Cons by simp
    moreover have "set (dropWhile is_space cs) \<subseteq> set cs"
      by (meson set_dropWhileD subsetI)
    ultimately show ?thesis
      unfolding Cons collapse_Cons by auto
  qed
qed

lemma strip_subset: "set (strip s) \<subseteq> set s"
  unfolding strip_def by (metis set_dropWhileD set_rev subsetI)

lemma single_spaced_Cons:
  "single_spaced (c # r) =
     ((is_space c \<longrightarrow> c = 32 \<and> (r = [] \<or> \<not> is_space (hd r))) \<and> single_spaced r)"
  by (cases r) (auto simp: is_space_def)

lemma single_spaced_space: "single_spaced s \<Longrightarrow> c \<in> set s \<Longrightarrow> is_space c \<Longrightarrow> c = 32"
  by (induction s) (auto simp: single_spaced_Cons simp del: single_spaced.simps)

lemma collapse_head:
  "s \<noteq> [] \<Longrightarrow> \<not> is_space (hd s) \<Longrightarrow>
   re_sub pat_spaces (\<lambda>_. [32]) s \<noteq> [] \<and> hd (re_sub pat_spaces (\<lambda>_. [32]) s) = hd s"
  by (cases s) (simp_all add: collapse_Cons del: re_sub.simps)

lemma collapse_single_spaced: "single_spaced (re_sub pat_spaces (\<lambda>_. [32]) s)"
proof (induction "length s" arbitrary: s rule: less_induct)
  case less
  show ?case
  proof (cases s)
    case Nil
    then show ?thesis by simp
  next
    case (Cons c cs)
    let ?rest = "dropWhile is_space cs"
    have "length ?rest < length s"
      using Cons length_dropWhile_le [of is_space cs] by simp
    then have rest: "single_spaced (re_sub pat_spaces (\<lambda>_. [32]) ?rest)"
      by (rule less)
    have tail: "single_spaced (re_sub pat_spaces (\<lambda>_. [32]) cs)"
      using less [of cs] Cons by simp
    have "?rest = [] \<or> \<not> is_space (hd ?rest)"
      using hd_dropWhile [of is_space cs] by blast
    then have "re_sub pat_spaces (\<lambda>_. [32]) ?rest = [] \<or>
        \<not> is_space (hd (re_sub pat_spaces (\<lambda>_. [32]) ?rest))"
    proof
      assume "?rest = []"
      then show ?thesis by (simp del: dropWhile_eq_Nil_conv)
    next
      assume "\<not> is_space (hd ?rest)"
      then show ?thesis
        using collapse_head [of ?rest]
        by (cases "?rest = []") (simp_all del: dropWhile_eq_Nil_conv)
    qed
    then show ?thesis
      unfolding Cons collapse_Cons using rest tail
      by (simp add: single_spaced_Cons del: single_spaced.simps re_sub.simps)
  qed
qed

lemma single_spaced_collapse: "single_spaced s \<Longrightarrow> re_sub pat_spaces (\<lambda>_. [32]) s = s"
proof (induction s)
  case Nil
  then show ?case by simp
next
  case (Cons c cs)
  have tail: "re_sub pat_spaces (\<lambda>_. [32]) cs = cs"
    using Cons by (simp add: single_spaced_Cons del: single_spaced.simps)
  show ?case
  proof (cases "is_space c")
    case False
    then show ?thesis
      using tail by (simp add: collapse_Cons del: re_sub.simps)
  next
    case True
    then have "c = 32" "cs = [] \<or> \<not> is_space (hd cs)"
      using Cons.prems by (simp_all add: single_spaced_Cons del: single_spaced.simps)
    then have "dropWhile is_space cs = cs"
      by (cases cs) auto
    then show ?thesis
      using tail True \<open>c = 32\<close> by (simp only: collapse_Cons if_True)
  qed
qed

lemma single_spaced_prefix: "single_spaced (xs @ ys) \<Longrightarrow> single_spaced xs"
proof (induction xs)
  case Nil
  then show ?case by simp
next
  case (Cons c xs)
  then show ?case
    by (cases xs) (auto simp: single_spaced_Cons simp del: single_spaced.simps)
qed

lemma single_spaced_dropWhile: "single_spaced s \<Longrightarrow> single_spaced (dropWhile P s)"
  by (induction s) (auto simp: single_spaced_Cons simp del: single_spaced.simps)

lemma strip_prefix:
  "dropWhile is_space s = strip s @ rev (takeWhile is_space (rev (dropWhile is_space s)))"
proof -
  let ?r = "rev (dropWhile is_space s)"
  have "rev (takeWhile is_space ?r @ dropWhile is_space ?r) = rev ?r"
    by simp
  then have "rev (dropWhile is_space ?r) @ rev (takeWhile is_space ?r) = rev ?r"
    by (simp only: rev_append)
  then show ?thesis
    by (simp only: strip_def rev_rev_ident)
qed

lemma single_spaced_strip: "single_spaced s \<Longrightarrow> single_spaced (strip s)"
  using single_spaced_prefix [of "strip s" "rev (takeWhile is_space (rev (dropWhile is_space s)))"]
    single_spaced_dropWhile [of s is_space] strip_prefix [of s]
  by simp

lemma strip_ends: "strip s \<noteq> [] \<Longrightarrow> \<not> is_space (hd (strip s)) \<and> \<not> is_space (last (strip s))"
proof -
  assume nonempty: "strip s \<noteq> []"
  let ?u = "dropWhile is_space s"
  have "last (strip s) = hd (dropWhile is_space (rev ?u))"
    using nonempty by (simp add: strip_def last_rev)
  moreover have "dropWhile is_space (rev ?u) \<noteq> []"
    using nonempty by (simp add: strip_def)
  ultimately have plain_last: "\<not> is_space (last (strip s))"
    using hd_dropWhile [of is_space "rev ?u"] by simp
  have "hd ?u = hd (strip s)"
    using strip_prefix [of s] nonempty by (metis hd_append2)
  moreover have "?u \<noteq> []"
    using strip_prefix [of s] nonempty by (metis append_is_Nil_conv)
  ultimately have "\<not> is_space (hd (strip s))"
    using hd_dropWhile [of is_space s] by simp
  with plain_last show ?thesis by simp
qed

lemma strip_strip: "strip (strip s) = strip s"
proof (cases "strip s = []")
  case True
  then show ?thesis by (simp add: strip_Nil)
next
  case False
  then show ?thesis
    using strip_ends [of s] strip_plain_ends [of "strip s"] by simp
qed

text \<open>What every result of the unescaper looks like.\<close>

lemma unescape_latex_shape:
  assumes "s \<noteq> []"
  shows "single_spaced (unescape_latex s)" "strip (unescape_latex s) = unescape_latex s"
    "123 \<notin> set (unescape_latex s)" "125 \<notin> set (unescape_latex s)"
proof -
  define s5 where "s5 = re_sub pat_umlaut (on_group umlauts) (re_sub pat_tilde (on_group tilde_n)
    (re_sub pat_grave (on_group id) (re_sub pat_acute (on_group accents) (replace_char 10 [32] s))))"
  define s6 where "s6 = replace_char 125 [] (replace_char 123 [] s5)"
  have result: "unescape_latex s = strip (re_sub pat_spaces (\<lambda>_. [32]) s6)"
    using assms by (simp add: unescape_latex_def s5_def s6_def)
  show "single_spaced (unescape_latex s)"
    unfolding result by (intro single_spaced_strip collapse_single_spaced)
  show "strip (unescape_latex s) = unescape_latex s"
    unfolding result by (rule strip_strip)
  have "123 \<notin> set s6" "125 \<notin> set s6"
    using replace_char_removes [of 123 s5] replace_char_subset [of 125 "replace_char 123 [] s5"]
      replace_char_removes [of 125 "replace_char 123 [] s5"]
    unfolding s6_def by auto
  then have "123 \<notin> set (re_sub pat_spaces (\<lambda>_. [32]) s6)" "125 \<notin> set (re_sub pat_spaces (\<lambda>_. [32]) s6)"
    using collapse_subset [of s6] by auto
  then show "123 \<notin> set (unescape_latex s)" "125 \<notin> set (unescape_latex s)"
    unfolding result using strip_subset [of "re_sub pat_spaces (\<lambda>_. [32]) s6"] by auto
qed

lemma unescape_latex_fixed:
  assumes "single_spaced t" "strip t = t" "123 \<notin> set t" "125 \<notin> set t" "\<not> has_macro t"
  shows "unescape_latex t = t"
proof (cases "t = []")
  case True
  then show ?thesis by (simp add: unescape_latex_def)
next
  case False
  have "\<not> (10 :: nat) = 32" by simp
  moreover have "is_space 10" by (simp add: is_space_def)
  ultimately have "10 \<notin> set t"
    using single_spaced_space [OF assms(1), of 10] by blast
  then have "replace_char 10 [32] t = t"
    by (rule replace_char_absent)
  moreover have "matches_nowhere pat_acute t" "matches_nowhere pat_grave t"
    "matches_nowhere pat_tilde t" "matches_nowhere pat_umlaut t"
    using assms(5) by (simp_all add: has_macro_def)
  ultimately show ?thesis
    using False assms(1-4)
    by (simp add: unescape_latex_def re_sub_nowhere replace_char_absent single_spaced_collapse)
qed

text \<open>
  C4.  Whenever none of the four accent macros is left in the unescaped text, unescaping it
  again changes nothing.  Braces are never left in it.
\<close>

theorem unescape_latex_idempotent:
  assumes "\<not> has_macro (unescape_latex s)"
  shows "unescape_latex (unescape_latex s) = unescape_latex s \<and>
         123 \<notin> set (unescape_latex s) \<and> 125 \<notin> set (unescape_latex s)"
proof (cases "s = []")
  case True
  then show ?thesis by (simp add: unescape_latex_def)
next
  case False
  then show ?thesis
    using unescape_latex_shape [OF False] unescape_latex_fixed [OF _ _ _ _ assms] by simp
qed

theorem unescape_latex_idempotent_witness:
  "unescape_latex (unescape_latex (ustr ''{Jos'' @ [92, 39] @ ustr ''e}  Mar'' @ [92, 39, 92] @ ustr ''ia'')) =
     ustr ''Jos'' @ [233] @ ustr '' Mar'' @ [237] @ ustr ''a''"
proof -
  have once: "unescape_latex (ustr ''{Jos'' @ [92, 39] @ ustr ''e}  Mar'' @ [92, 39, 92] @ ustr ''ia'') =
      ustr ''Jos'' @ [233] @ ustr '' Mar'' @ [237] @ ustr ''a''"
    by (simp add: text_defs pattern_defs unescape_defs)
  have clean: "\<not> has_macro (ustr ''Jos'' @ [233] @ ustr '' Mar'' @ [237] @ ustr ''a'')"
    by (simp add: has_macro_def text_defs pattern_defs)
  show ?thesis
    using unescape_latex_idempotent [of "ustr ''{Jos'' @ [92, 39] @ ustr ''e}  Mar'' @ [92, 39, 92] @ ustr ''ia''"]
      clean
    unfolding once by simp
qed

text \<open>
  Without the condition the second pass can differ: the braces of \<open>\'{a}\<close> hide the macro
  from the first pass, which leaves \<open>\'a\<close>, and the second pass makes the accented letter.
\<close>

lemma unescape_latex_twice_differs:
  "unescape_latex ([92, 39] @ ustr ''{a}'') = [92, 39, 97] \<and>
   unescape_latex (unescape_latex ([92, 39] @ ustr ''{a}'')) = [225] \<and>
   has_macro (unescape_latex ([92, 39] @ ustr ''{a}''))"
  by (simp add: text_defs pattern_defs unescape_defs has_macro_def)

section \<open>Splitting the author field\<close>

text \<open>Splitting at the leftmost match, for any pattern.\<close>

lemma re_split_run_nowhere:
  "matches_nowhere pat s \<Longrightarrow> re_split_run pat cur s = [rev cur @ s]"
  by (induction s arbitrary: cur) simp_all

lemma re_split_run_leftmost:
  assumes "pat (sep @ rest) = Some (length sep)" "sep \<noteq> []"
    and "\<forall>i < length a. pat (drop i (a @ sep @ rest)) = None"
  shows "re_split_run pat cur (a @ sep @ rest) = (rev cur @ a) # re_split_run pat [] rest"
  using assms(3)
proof (induction a arbitrary: cur)
  case Nil
  obtain c cs where sep: "sep = c # cs"
    using assms(2) by (cases sep) auto
  then show ?case
    using assms(1) by simp
next
  case (Cons x a)
  have "pat (drop 0 ((x # a) @ sep @ rest)) = None"
    using Cons.prems by blast
  moreover have "\<forall>i < length a. pat (drop i (a @ sep @ rest)) = None"
  proof (intro allI impI)
    fix i assume "i < length a"
    then have "pat (drop (Suc i) ((x # a) @ sep @ rest)) = None"
      using Cons.prems by (metis Suc_less_eq length_Cons)
    then show "pat (drop i (a @ sep @ rest)) = None"
      by simp
  qed
  ultimately show ?case
    using Cons.IH [of "x # cur"] by simp
qed

text \<open>The separator pattern.\<close>

lemma takeWhile_run:
  "\<forall>c \<in> set a. P c \<Longrightarrow> r = [] \<or> \<not> P (hd r) \<Longrightarrow> takeWhile P (a @ r) = a"
  by (cases r) (simp_all add: takeWhile_append2)

lemma not_space_97: "\<not> is_space 97"
  by (simp add: is_space_def)

lemma pat_and_sound:
  assumes "a \<noteq> []" "b \<noteq> []" "\<forall>c \<in> set a. is_space c" "\<forall>c \<in> set b. is_space c"
    "r = [] \<or> \<not> is_space (hd r)"
  shows "pat_and (a @ ustr ''and'' @ b @ r) = Some (length a + 3 + length b)"
proof -
  have run_a: "takeWhile is_space (a @ ustr ''and'' @ b @ r) = a"
    using assms(3) not_space_97 by (intro takeWhile_run) (simp_all add: ustr_def)
  have run_b: "takeWhile is_space (b @ r) = b"
    using assms(4,5) by (rule takeWhile_run)
  show ?thesis
    using assms(1,2) by (simp add: pat_and_def run_a run_b Let_def) (simp add: ustr_def run_b)
qed

lemma pat_and_complete:
  assumes "pat_and s = Some n"
  shows "\<exists>a b r. s = a @ ustr ''and'' @ b @ r \<and> a \<noteq> [] \<and> b \<noteq> [] \<and>
           (\<forall>c \<in> set a. is_space c) \<and> (\<forall>c \<in> set b. is_space c) \<and>
           (r = [] \<or> \<not> is_space (hd r)) \<and> n = length a + 3 + length b"
proof -
  let ?a = "takeWhile is_space s"
  have a: "?a \<noteq> []"
    using assms by (auto simp: pat_and_def Let_def split: if_splits)
  obtain t where rest: "drop (length ?a) s = 97 # 110 # 100 # t" "takeWhile is_space t \<noteq> []"
      "n = length ?a + 3 + length (takeWhile is_space t)"
    using assms a by (auto simp: pat_and_def Let_def split: if_splits list.splits)
  let ?b = "takeWhile is_space t"
  let ?r = "dropWhile is_space t"
  have "s = ?a @ drop (length ?a) s"
    by (metis takeWhile_eq_take append_take_drop_id)
  then have "s = ?a @ ustr ''and'' @ ?b @ ?r"
    using rest(1) by (simp add: ustr_def)
  moreover have "\<forall>c \<in> set ?a. is_space c" "\<forall>c \<in> set ?b. is_space c"
    by (auto dest: set_takeWhileD)
  moreover have "?r = [] \<or> \<not> is_space (hd ?r)"
    using hd_dropWhile [of is_space t] by blast
  ultimately show ?thesis
    using a rest(2,3) by blast
qed

text \<open>On single-spaced text the separator is the literal.\<close>

lemma single_spaced_suffix: "single_spaced (xs @ ys) \<Longrightarrow> single_spaced ys"
  by (induction xs) (simp_all add: single_spaced_Cons del: single_spaced.simps)

lemma single_spaced_run:
  assumes "single_spaced (a @ r)" "a \<noteq> []" "\<forall>c \<in> set a. is_space c"
  shows "a = [32]"
proof -
  obtain c a' where a: "a = c # a'"
    using assms(2) by (cases a) auto
  then have "c = 32" "a' @ r = [] \<or> \<not> is_space (hd (a' @ r))"
    using assms(1,3) by (simp_all add: single_spaced_Cons del: single_spaced.simps)
  moreover have "a' \<noteq> [] \<Longrightarrow> is_space (hd (a' @ r))"
    using assms(3) a by (cases a') simp_all
  ultimately show ?thesis
    using a by (cases a') auto
qed

lemma single_spaced_after:
  assumes "single_spaced (xs @ c # r)" "is_space c"
  shows "r = [] \<or> \<not> is_space (hd r)"
  using single_spaced_suffix [OF assms(1)] assms(2)
  by (simp add: single_spaced_Cons del: single_spaced.simps)

lemma pat_literal_and:
  "pat_literal (ustr '' and '') s = (if take 5 s = ustr '' and '' then Some 5 else None)"
proof -
  have "length (ustr '' and '') = 5" "ustr '' and '' \<noteq> []"
    by (simp_all add: ustr_def)
  then show ?thesis
    unfolding pat_literal_def by simp
qed

lemma pat_and_single_spaced:
  assumes "single_spaced s"
  shows "pat_and s = pat_literal (ustr '' and '') s"
proof (cases "pat_and s")
  case (Some n)
  then obtain a b r where shape: "s = a @ ustr ''and'' @ b @ r" "a \<noteq> []" "b \<noteq> []"
      "\<forall>c \<in> set a. is_space c" "\<forall>c \<in> set b. is_space c" "n = length a + 3 + length b"
    using pat_and_complete [of s n] by blast
  have "a = [32]"
    using assms shape(1,2,4) single_spaced_run [of a "ustr ''and'' @ b @ r"] by simp
  moreover have "single_spaced (b @ r)"
    using assms shape(1) single_spaced_suffix [of "a @ ustr ''and''" "b @ r"] by simp
  then have "b = [32]"
    using shape(3,5) single_spaced_run [of b r] by simp
  ultimately have "take 5 s = ustr '' and ''" "n = 5"
    using shape(1,6) by (simp_all add: ustr_def)
  then show ?thesis
    using Some by (simp add: pat_literal_and)
next
  case None
  have "take 5 s \<noteq> ustr '' and ''"
  proof
    assume literal: "take 5 s = ustr '' and ''"
    let ?r = "drop 5 s"
    have s: "s = [32] @ ustr ''and'' @ [32] @ ?r"
      using literal append_take_drop_id [of 5 s] by (simp add: ustr_def)
    then have "single_spaced (([32] @ ustr ''and'') @ 32 # ?r)"
      using assms by simp
    then have "?r = [] \<or> \<not> is_space (hd ?r)"
      by (rule single_spaced_after) (simp add: is_space_def)
    then have "pat_and ([32] @ ustr ''and'' @ [32] @ ?r) = Some (length [32::nat] + 3 + length [32::nat])"
      by (intro pat_and_sound) (simp_all add: is_space_def)
    then show False
      using None s by simp
  qed
  then show ?thesis
    using None by (simp add: pat_literal_and)
qed

lemma single_spaced_drop: "single_spaced s \<Longrightarrow> single_spaced (drop k s)"
  using single_spaced_suffix [of "take k s" "drop k s"] by simp

lemma re_split_run_single_spaced:
  "single_spaced s \<Longrightarrow>
   re_split_run pat_and cur s = re_split_run (pat_literal (ustr '' and '')) cur s"
proof (induction "length s" arbitrary: s cur rule: less_induct)
  case less
  show ?case
  proof (cases s)
    case Nil
    then show ?thesis by simp
  next
    case (Cons c cs)
    have same: "pat_and (c # cs) = pat_literal (ustr '' and '') (c # cs)"
      using less.prems Cons pat_and_single_spaced by simp
    have tail: "single_spaced cs"
      using less.prems Cons single_spaced_drop [of s 1] by simp
    show ?thesis
    proof (cases "pat_and (c # cs)")
      case None
      then show ?thesis
        using same Cons less.hyps [of cs "c # cur"] tail by simp
    next
      case (Some n)
      have "length (drop (n - 1) cs) < length s"
        using Cons by simp
      then have "re_split_run pat_and [] (drop (n - 1) cs) =
          re_split_run (pat_literal (ustr '' and '')) [] (drop (n - 1) cs)"
        using single_spaced_drop [OF tail] by (intro less.hyps)
      moreover have "pat_literal (ustr '' and '') (c # cs) = Some n"
        using same Some by simp
      ultimately show ?thesis
        using Cons Some by simp
    qed
  qed
qed

text \<open>
  C2, as worded.  On \<open>"A and\nB"\<close>, where a newline follows the word, the code splits into
  \<open>"A"\<close> and \<open>"B"\<close>, although the literal \<open>" and "\<close> does not occur and splitting at it
  leaves the field whole.
\<close>

theorem split_at_whitespace_and_counterexample:
  "re_split pat_and (ustr ''A and'' @ [10] @ ustr ''B'') = [ustr ''A'', ustr ''B''] \<and>
   split_literal (ustr '' and '') (ustr ''A and'' @ [10] @ ustr ''B'') =
     [ustr ''A and'' @ [10] @ ustr ''B''] \<and>
   re_split pat_and (ustr ''A and'' @ [10] @ ustr ''B'') \<noteq>
     split_literal (ustr '' and '') (ustr ''A and'' @ [10] @ ustr ''B'')"
  by (simp add: text_defs pattern_defs split_literal_def pat_literal_def)

text \<open>
  C2, amended.  A separator is the word \<open>and\<close> between two runs of one or more whitespace
  characters of any kind, each run taken whole.  A field without a separator is one segment;
  otherwise the text before the leftmost separator is the first segment and the rest is
  split in the same way, so the segments keep their order.  On a field whose whitespace is
  only single space characters this is the split at the literal \<open>" and "\<close>.
\<close>

theorem split_authors_at_and:
  "(pat_and s = Some n \<longleftrightarrow>
      (\<exists>a b r. s = a @ ustr ''and'' @ b @ r \<and> a \<noteq> [] \<and> b \<noteq> [] \<and>
         (\<forall>c \<in> set a. is_space c) \<and> (\<forall>c \<in> set b. is_space c) \<and>
         (r = [] \<or> \<not> is_space (hd r)) \<and> n = length a + 3 + length b)) \<and>
   (matches_nowhere pat_and s \<longrightarrow> re_split pat_and s = [s]) \<and>
   (pat_and (sep @ rest) = Some (length sep) \<and>
    (\<forall>i < length seg. pat_and (drop i (seg @ sep @ rest)) = None) \<longrightarrow>
      re_split pat_and (seg @ sep @ rest) = seg # re_split pat_and rest) \<and>
   (single_spaced s \<longrightarrow> re_split pat_and s = split_literal (ustr '' and '') s)"
proof (intro conjI impI)
  show "pat_and s = Some n \<longleftrightarrow>
      (\<exists>a b r. s = a @ ustr ''and'' @ b @ r \<and> a \<noteq> [] \<and> b \<noteq> [] \<and>
         (\<forall>c \<in> set a. is_space c) \<and> (\<forall>c \<in> set b. is_space c) \<and>
         (r = [] \<or> \<not> is_space (hd r)) \<and> n = length a + 3 + length b)"
  proof
    assume "pat_and s = Some n"
    then show "\<exists>a b r. s = a @ ustr ''and'' @ b @ r \<and> a \<noteq> [] \<and> b \<noteq> [] \<and>
         (\<forall>c \<in> set a. is_space c) \<and> (\<forall>c \<in> set b. is_space c) \<and>
         (r = [] \<or> \<not> is_space (hd r)) \<and> n = length a + 3 + length b"
      by (rule pat_and_complete)
  next
    assume "\<exists>a b r. s = a @ ustr ''and'' @ b @ r \<and> a \<noteq> [] \<and> b \<noteq> [] \<and>
         (\<forall>c \<in> set a. is_space c) \<and> (\<forall>c \<in> set b. is_space c) \<and>
         (r = [] \<or> \<not> is_space (hd r)) \<and> n = length a + 3 + length b"
    then obtain a b r where "s = a @ ustr ''and'' @ b @ r" "a \<noteq> []" "b \<noteq> []"
        "\<forall>c \<in> set a. is_space c" "\<forall>c \<in> set b. is_space c" "r = [] \<or> \<not> is_space (hd r)"
        "n = length a + 3 + length b"
      by (elim exE conjE)
    then show "pat_and s = Some n"
      using pat_and_sound [of a b r] by simp
  qed
next
  assume "matches_nowhere pat_and s"
  then show "re_split pat_and s = [s]"
    using re_split_run_nowhere [of pat_and s "[]"] by (simp add: re_split_def)
next
  assume "pat_and (sep @ rest) = Some (length sep) \<and>
    (\<forall>i < length seg. pat_and (drop i (seg @ sep @ rest)) = None)"
  then have match: "pat_and (sep @ rest) = Some (length sep)"
    and before: "\<forall>i < length seg. pat_and (drop i (seg @ sep @ rest)) = None"
    by simp_all
  have "length sep \<noteq> 0"
    using pat_and_complete [OF match] by (elim exE conjE) simp
  then have "sep \<noteq> []"
    by simp
  then show "re_split pat_and (seg @ sep @ rest) = seg # re_split pat_and rest"
    using re_split_run_leftmost [OF match _ before, of "[]"] by (simp add: re_split_def)
next
  assume "single_spaced s"
  then show "re_split pat_and s = split_literal (ustr '' and '') s"
    using re_split_run_single_spaced [of s "[]"] by (simp add: re_split_def split_literal_def)
qed

theorem split_authors_at_and_witness:
  "re_split pat_and (ustr ''John Smith and Jane Doe'') =
     split_literal (ustr '' and '') (ustr ''John Smith and Jane Doe'') \<and>
   re_split pat_and (ustr ''Sanders, A.'') = [ustr ''Sanders, A.''] \<and>
   re_split pat_and (ustr ''A'' @ ([9] @ ustr ''and'' @ [10]) @ ustr ''B'') =
     ustr ''A'' # re_split pat_and (ustr ''B'')"
proof -
  have spaced: "single_spaced (ustr ''John Smith and Jane Doe'')"
    by (simp add: text_defs)
  have nowhere: "matches_nowhere pat_and (ustr ''Sanders, A.'')"
    by (simp add: text_defs pattern_defs)
  have here: "pat_and (([9] @ ustr ''and'' @ [10]) @ ustr ''B'') =
        Some (length ([9] @ ustr ''and'' @ [10])) \<and>
      (\<forall>i < length (ustr ''A'').
         pat_and (drop i (ustr ''A'' @ ([9] @ ustr ''and'' @ [10]) @ ustr ''B'')) = None)"
    by (simp add: text_defs pattern_defs)
  note literal = split_authors_at_and [of "ustr ''John Smith and Jane Doe''" 0 "[]" "[]" "[]"]
  note none = split_authors_at_and [of "ustr ''Sanders, A.''" 0 "[]" "[]" "[]"]
  note leftmost = split_authors_at_and [of "[]" 0 "[9] @ ustr ''and'' @ [10]" "ustr ''B''" "ustr ''A''"]
  have "re_split pat_and (ustr ''John Smith and Jane Doe'') =
      split_literal (ustr '' and '') (ustr ''John Smith and Jane Doe'')"
    using literal [THEN conjunct2, THEN conjunct2, THEN conjunct2] spaced by (rule mp)
  moreover have "re_split pat_and (ustr ''Sanders, A.'') = [ustr ''Sanders, A.'']"
    using none [THEN conjunct2, THEN conjunct1] nowhere by (rule mp)
  moreover have "re_split pat_and (ustr ''A'' @ ([9] @ ustr ''and'' @ [10]) @ ustr ''B'') =
      ustr ''A'' # re_split pat_and (ustr ''B'')"
    using leftmost [THEN conjunct2, THEN conjunct2, THEN conjunct1] here by (rule mp)
  ultimately show ?thesis
    by (intro conjI)
qed

end
